theory Spec2Isabelle
  imports Complex_Main
begin

section \<open>Python values used by the subtitle code\<close>

text \<open>
  Exceptions are values: a function of the source that can raise returns
  \<open>py_error + 'a\<close>, with \<open>Inl\<close> for the exception. Times given in seconds are
  Python floats in the source and real numbers here: the rounding of float
  arithmetic is outside the model.
\<close>

datatype py_error =
    IndexError
  | AttributeError
  | TypeError
  | OverflowError
  | ValueError string

section \<open>Segmentation of a transcript (core/subtitle.py)\<close>

text \<open>
  An item of the transcription result is a dictionary; each key the code reads
  with \<open>get\<close> may be missing, which is \<open>None\<close> here. \<open>alternatives\<close> is a list of
  dictionaries of which only the key \<open>content\<close> is read.
\<close>

record transcript_item =
  item_type :: "string option"
  item_start_time :: "real option"
  item_end_time :: "real option"
  item_alternatives :: "string option list option"

text \<open>The dictionaries \<open>_group_transcript_items\<close> builds and returns.\<close>

record segment =
  seg_start_time :: real
  seg_end_time :: real
  seg_text :: string

definition dict_get :: "'a option \<Rightarrow> 'a \<Rightarrow> 'a" where
  "dict_get v d = (case v of None \<Rightarrow> d | Some x \<Rightarrow> x)"

text \<open>
  \<open>item.get('alternatives', [{}])[0].get('content', '')\<close>: a missing key gives
  the default list with one empty dictionary, an empty list raises on \<open>[0]\<close>.
\<close>

definition item_content :: "transcript_item \<Rightarrow> py_error + string" where
  "item_content item =
     (case dict_get (item_alternatives item) [None] of
        [] \<Rightarrow> Inl IndexError
      | a # _ \<Rightarrow> Inr (dict_get a []))"

text \<open>
  The loop of \<open>_group_transcript_items\<close>, with its two variables \<open>segments\<close> and
  \<open>current_segment\<close> as arguments; the last equation is the code after the loop.
\<close>

fun group_loop ::
  "segment list \<Rightarrow> segment option \<Rightarrow> transcript_item list \<Rightarrow> py_error + segment list" where
  "group_loop segments current_segment [] =
     Inr (case current_segment of None \<Rightarrow> segments | Some c \<Rightarrow> segments @ [c])"
| "group_loop segments current_segment (item # items) =
     (if item_type item \<noteq> Some ''pronunciation'' then group_loop segments current_segment items
      else
        let start_time = dict_get (item_start_time item) 0;
            end_time = dict_get (item_end_time item) 0
        in case item_content item of
             Inl e \<Rightarrow> Inl e
           | Inr content \<Rightarrow>
               (case current_segment of
                  None \<Rightarrow>
                    group_loop segments
                      (Some \<lparr>seg_start_time = start_time, seg_end_time = end_time,
                             seg_text = content\<rparr>) items
                | Some c \<Rightarrow>
                    if start_time - seg_end_time c < 1 / 2 then
                      group_loop segments
                        (Some (c\<lparr>seg_text := seg_text c @ '' '' @ content,
                                 seg_end_time := end_time\<rparr>)) items
                    else
                      group_loop (segments @ [c])
                        (Some \<lparr>seg_start_time = start_time, seg_end_time = end_time,
                               seg_text = content\<rparr>) items))"

definition group_transcript_items :: "transcript_item list \<Rightarrow> py_error + segment list" where
  "group_transcript_items items = group_loop [] None items"

subsection \<open>The segmentation as the specification words it\<close>

text \<open>
  A timed token has a kind, a start, an end and a content; as a dictionary it
  has every key, and one alternative.
\<close>

record timed_token =
  tok_kind :: string
  tok_start :: real
  tok_end :: real
  tok_content :: string

definition item_of_token :: "timed_token \<Rightarrow> transcript_item" where
  "item_of_token t =
     \<lparr>item_type = Some (tok_kind t), item_start_time = Some (tok_start t),
      item_end_time = Some (tok_end t), item_alternatives = Some [Some (tok_content t)]\<rparr>"

definition is_speech :: "timed_token \<Rightarrow> bool" where
  "is_speech t = (tok_kind t = ''pronunciation'')"

definition open_accumulator :: "timed_token \<Rightarrow> segment" where
  "open_accumulator t =
     \<lparr>seg_start_time = tok_start t, seg_end_time = tok_end t, seg_text = tok_content t\<rparr>"

definition extend_accumulator :: "segment \<Rightarrow> timed_token \<Rightarrow> segment" where
  "extend_accumulator acc t =
     \<lparr>seg_start_time = seg_start_time acc, seg_end_time = tok_end t,
      seg_text = seg_text acc @ '' '' @ tok_content t\<rparr>"

text \<open>
  Specification steps 2 and 3: walk the kept tokens with an open accumulator,
  extend it or close it, and close the last one at the end of the input.
\<close>

fun spec_walk :: "segment \<Rightarrow> timed_token list \<Rightarrow> segment list" where
  "spec_walk acc [] = [acc]"
| "spec_walk acc (t # ts) =
     (if tok_start t - seg_end_time acc < 1 / 2 then spec_walk (extend_accumulator acc t) ts
      else acc # spec_walk (open_accumulator t) ts)"

text \<open>Specification step 1 filters, then the walk starts at the first kept token.\<close>

definition spec_segment :: "timed_token list \<Rightarrow> segment list" where
  "spec_segment tokens =
     (case filter is_speech tokens of
        [] \<Rightarrow> []
      | t # ts \<Rightarrow> spec_walk (open_accumulator t) ts)"

definition tok :: "string \<Rightarrow> real \<Rightarrow> real \<Rightarrow> timed_token" where
  "tok c s e = \<lparr>tok_kind = ''pronunciation'', tok_start = s, tok_end = e, tok_content = c\<rparr>"

text \<open>
  The grouping the loop performs, kept as lists of tokens: a kept token joins
  the open group when it starts less than half a second after the end of the
  token that was added last, and starts a group of its own otherwise.
\<close>

fun groups_walk :: "timed_token list \<Rightarrow> timed_token list \<Rightarrow> timed_token list list" where
  "groups_walk g [] = [g]"
| "groups_walk g (t # ts) =
     (if tok_start t - tok_end (last g) < 1 / 2 then groups_walk (g @ [t]) ts
      else g # groups_walk [t] ts)"

definition token_groups :: "timed_token list \<Rightarrow> timed_token list list" where
  "token_groups tokens =
     (case filter is_speech tokens of
        [] \<Rightarrow> []
      | t # ts \<Rightarrow> groups_walk [t] ts)"

fun join_words :: "string list \<Rightarrow> string" where
  "join_words [] = []"
| "join_words [w] = w"
| "join_words (w # v # ws) = w @ '' '' @ join_words (v # ws)"

definition segment_of_group :: "timed_token list \<Rightarrow> segment" where
  "segment_of_group g =
     \<lparr>seg_start_time = tok_start (hd g), seg_end_time = tok_end (last g),
      seg_text = join_words (map tok_content g)\<rparr>"

section \<open>The subtitle library's values (pysrt)\<close>

text \<open>
  A \<open>SubRipTime\<close> of the library holds one integer, its \<open>ordinal\<close> in
  milliseconds. The constructor adds up its four arguments, and the attributes
  \<open>hours\<close>, \<open>minutes\<close>, \<open>seconds\<close> and \<open>milliseconds\<close> are read back from the
  ordinal with Python's floor division and modulo.
\<close>

record subrip_time =
  ordinal :: int

definition SubRipTime :: "int \<Rightarrow> int \<Rightarrow> int \<Rightarrow> int \<Rightarrow> subrip_time" where
  "SubRipTime h m s ms = \<lparr>ordinal = h * 3600000 + m * 60000 + s * 1000 + ms\<rparr>"

definition from_ordinal :: "int \<Rightarrow> subrip_time" where
  "from_ordinal n = SubRipTime 0 0 0 n"

definition hours :: "subrip_time \<Rightarrow> int" where
  "hours t = ordinal t div 3600000"

definition minutes :: "subrip_time \<Rightarrow> int" where
  "minutes t = ordinal t mod 3600000 div 60000"

definition seconds :: "subrip_time \<Rightarrow> int" where
  "seconds t = ordinal t mod 60000 div 1000"

definition milliseconds :: "subrip_time \<Rightarrow> int" where
  "milliseconds t = ordinal t mod 1000"

text \<open>
  A \<open>SubRipItem\<close> has an index, a start, an end and a text (its position
  string is not used by the code). An assignment to an attribute is a record
  update.
\<close>

record subrip_item =
  sub_index :: int
  sub_start :: subrip_time
  sub_end :: subrip_time
  sub_text :: string

definition SubRipItem :: "int \<Rightarrow> subrip_time \<Rightarrow> subrip_time \<Rightarrow> string \<Rightarrow> subrip_item" where
  "SubRipItem index start end_time text =
     \<lparr>sub_index = index, sub_start = start, sub_end = end_time, sub_text = text\<rparr>"

text \<open>
  The item class defines neither an attribute \<open>seconds\<close> nor a method
  \<open>copy\<close>: reading the one and calling the other raise \<open>AttributeError\<close>.
\<close>

definition item_seconds :: "subrip_item \<Rightarrow> py_error + int" where
  "item_seconds sub = Inl AttributeError"

definition item_copy :: "subrip_item \<Rightarrow> py_error + subrip_item" where
  "item_copy sub = Inl AttributeError"

section \<open>Seconds to a timestamp (core/subtitle.py)\<close>

text \<open>
  \<open>timedelta(seconds=x)\<close> turns \<open>x\<close> into a whole number of microseconds,
  rounding half to even. The source multiplies the fractional part of the
  float by a million in float arithmetic before it rounds; here the product is
  exact.
\<close>

definition round_half_even :: "real \<Rightarrow> int" where
  "round_half_even x =
     (let f = \<lfloor>x\<rfloor>; r = x - of_int f
      in if r < 1 / 2 then f else if 1 / 2 < r then f + 1
         else if even f then f else f + 1)"

definition microseconds_of_seconds :: "real \<Rightarrow> int" where
  "microseconds_of_seconds x = round_half_even (x * 1000000)"

text \<open>
  The microseconds are stored as days, seconds within the day and microseconds
  within the second, the last two never negative. A \<open>timedelta\<close> of more than
  999999999 days, either way, does not exist: the constructor raises
  \<open>OverflowError\<close>.
\<close>

record timedelta =
  td_days :: int
  td_seconds :: int
  td_microseconds :: int

definition timedelta_microseconds :: "int \<Rightarrow> py_error + timedelta" where
  "timedelta_microseconds us =
     (let d = us div 86400000000
      in if 999999999 < \<bar>d\<bar> then Inl OverflowError
         else Inr \<lparr>td_days = d,
                   td_seconds = us mod 86400000000 div 1000000,
                   td_microseconds = us mod 1000000\<rparr>)"

definition timedelta_seconds :: "real \<Rightarrow> py_error + timedelta" where
  "timedelta_seconds x = timedelta_microseconds (microseconds_of_seconds x)"

text \<open>\<open>int(x)\<close> on a number truncates towards zero.\<close>

definition py_int_of_real :: "real \<Rightarrow> int" where
  "py_int_of_real x = (if 0 \<le> x then \<lfloor>x\<rfloor> else \<lceil>x\<rceil>)"

definition seconds_to_subrip_time :: "real \<Rightarrow> py_error + subrip_time" where
  "seconds_to_subrip_time secs =
     (case timedelta_seconds secs of
        Inl e \<Rightarrow> Inl e
      | Inr td \<Rightarrow>
          let hrs = td_seconds td div 3600;
              remainder = td_seconds td mod 3600;
              mins = remainder div 60;
              s = remainder mod 60;
              ms = py_int_of_real (real_of_int (td_microseconds td) / 1000)
          in Inr (SubRipTime hrs mins s ms))"

section \<open>Merging and splitting in the processor (core/subtitle.py)\<close>

text \<open>
  \<open>merge_subtitles\<close> of the processor. The comprehension keeps the indices
  that lie in the list, so no read is out of range. Past the two guards the
  first subtitle to merge is copied.
\<close>

definition processor_merge_subtitles ::
  "subrip_item list \<Rightarrow> int list \<Rightarrow> py_error + subrip_item option \<times> int list" where
  "processor_merge_subtitles subtitles indices =
     (if indices = [] \<or> length indices < 2 then Inr (None, [])
      else
        let sorted_indices = sort indices;
            to_merge = map (\<lambda>i. subtitles ! nat i)
                         (filter (\<lambda>i. 0 \<le> i \<and> i < int (length subtitles)) sorted_indices)
        in if to_merge = [] then Inr (None, [])
           else
             case item_copy (hd to_merge) of
               Inl e \<Rightarrow> Inl e
             | Inr merged \<Rightarrow>
                 Inr (Some (merged\<lparr>sub_end := sub_end (last to_merge),
                                    sub_text := join_words (map sub_text to_merge)\<rparr>),
                      tl sorted_indices))"

text \<open>
  \<open>split_subtitle\<close> of the processor; the position is in seconds. Inside the
  bounds the subtitle is copied once for each part.
\<close>

definition processor_split_subtitle ::
  "subrip_item \<Rightarrow> real \<Rightarrow> py_error + subrip_item \<times> subrip_item option" where
  "processor_split_subtitle subtitle position =
     (case seconds_to_subrip_time position of
        Inl e \<Rightarrow> Inl e
      | Inr position_time \<Rightarrow>
          if \<not> (ordinal (sub_start subtitle) \<le> ordinal position_time
                \<and> ordinal position_time \<le> ordinal (sub_end subtitle))
          then Inr (subtitle, None)
          else
            case item_copy subtitle of
              Inl e \<Rightarrow> Inl e
            | Inr first_part \<Rightarrow>
               (case item_copy subtitle of
                  Inl e \<Rightarrow> Inl e
                | Inr second_part \<Rightarrow>
                    Inr (first_part\<lparr>sub_end := position_time\<rparr>,
                         Some (second_part\<lparr>sub_start := position_time\<rparr>))))"

section \<open>Loading a subtitle file (core/subtitle.py)\<close>

text \<open>
  \<open>load_srt\<close> calls the library's \<open>open\<close>, which is a parameter here: it
  returns the items of the file, or raises an exception, given by its message.
  The result of \<open>load_srt\<close> is what its caller receives, paired with the
  lines it prints.
\<close>

definition load_srt ::
  "(string \<Rightarrow> string + subrip_item list) \<Rightarrow> string
     \<Rightarrow> (py_error + subrip_item list) \<times> string list" where
  "load_srt pysrt_open file_path =
     (case pysrt_open file_path of
        Inr subs \<Rightarrow> (Inr subs, [])
      | Inl e \<Rightarrow> (Inr [], [''Error loading SRT file: '' @ e]))"

text \<open>
  The library's \<open>open\<close> as \<open>load_srt\<close> calls it, with the error handling left
  at its default: a block of the file that does not parse is passed over
  without notice, and a file that cannot be opened raises. A file is the list
  of its blocks, each one an item or malformed; \<open>files\<close> gives the files that
  exist.
\<close>

datatype srt_block =
    Block subrip_item
  | Malformed

fun parsed_items :: "srt_block list \<Rightarrow> subrip_item list" where
  "parsed_items [] = []"
| "parsed_items (Block item # blocks) = item # parsed_items blocks"
| "parsed_items (Malformed # blocks) = parsed_items blocks"

definition pysrt_open ::
  "(string \<Rightarrow> srt_block list option) \<Rightarrow> string \<Rightarrow> string + subrip_item list" where
  "pysrt_open files path =
     (case files path of
        None \<Rightarrow> Inl ''No such file or directory''
      | Some blocks \<Rightarrow> Inr (parsed_items blocks))"

section \<open>Python lists and strings\<close>

text \<open>
  Reading, assigning and deleting at an index raise \<open>IndexError\<close> out of
  range; a negative index counts from the end. \<open>insert\<close> never raises: it
  clips the index to the list.
\<close>

definition norm_index :: "'a list \<Rightarrow> int \<Rightarrow> py_error + nat" where
  "norm_index xs i =
     (let n = int (length xs); j = (if i < 0 then i + n else i)
      in if 0 \<le> j \<and> j < n then Inr (nat j) else Inl IndexError)"

definition list_get :: "'a list \<Rightarrow> int \<Rightarrow> py_error + 'a" where
  "list_get xs i = (case norm_index xs i of Inl e \<Rightarrow> Inl e | Inr j \<Rightarrow> Inr (xs ! j))"

definition list_set :: "'a list \<Rightarrow> int \<Rightarrow> 'a \<Rightarrow> py_error + 'a list" where
  "list_set xs i v = (case norm_index xs i of Inl e \<Rightarrow> Inl e | Inr j \<Rightarrow> Inr (xs[j := v]))"

definition list_del :: "'a list \<Rightarrow> int \<Rightarrow> py_error + 'a list" where
  "list_del xs i =
     (case norm_index xs i of Inl e \<Rightarrow> Inl e | Inr j \<Rightarrow> Inr (take j xs @ drop (Suc j) xs))"

definition list_insert :: "'a list \<Rightarrow> int \<Rightarrow> 'a \<Rightarrow> 'a list" where
  "list_insert xs i v =
     (let n = int (length xs);
          j = (if i < 0 then max 0 (i + n) else min i n)
      in take (nat j) xs @ [v] @ drop (nat j) xs)"

text \<open>
  \<open>str.strip()\<close> removes the white space at both ends; the characters below
  are those of the first 256 code points that Python counts as white space.
\<close>

definition is_space :: "char \<Rightarrow> bool" where
  "is_space c =
     (let n = (of_char c :: nat)
      in (9 \<le> n \<and> n \<le> 13) \<or> (28 \<le> n \<and> n \<le> 32) \<or> n = 133 \<or> n = 160)"

definition strip :: "string \<Rightarrow> string" where
  "strip s = rev (dropWhile is_space (rev (dropWhile is_space s)))"

text \<open>\<open>s.split(sep)\<close> for a separator of one character.\<close>

fun split_on :: "char \<Rightarrow> string \<Rightarrow> string list" where
  "split_on sep [] = [[]]"
| "split_on sep (c # cs) =
     (if c = sep then [] # split_on sep cs
      else (case split_on sep cs of
              [] \<Rightarrow> [[c]]
            | p # ps \<Rightarrow> (c # p) # ps))"

definition replace_char :: "char \<Rightarrow> char \<Rightarrow> string \<Rightarrow> string" where
  "replace_char old new s = map (\<lambda>c. if c = old then new else c) s"

definition ljust :: "nat \<Rightarrow> char \<Rightarrow> string \<Rightarrow> string" where
  "ljust w fill s = s @ replicate (w - length s) fill"

text \<open>
  \<open>int(s)\<close> on a string: white space around the literal is dropped, one sign
  may lead, and single underscores may stand between digits. Anything else
  raises \<open>ValueError\<close>. Only the digits 0 to 9 are modelled.
\<close>

definition is_digit :: "char \<Rightarrow> bool" where
  "is_digit c = (let n = (of_char c :: nat) in 48 \<le> n \<and> n \<le> 57)"

definition digit_value :: "char \<Rightarrow> nat" where
  "digit_value c = of_char c - 48"

fun digits_ok :: "string \<Rightarrow> bool" where
  "digits_ok [] = False"
| "digits_ok [c] = is_digit c"
| "digits_ok (c # d # cs) =
     (is_digit c \<and> (if d = CHR ''_'' then digits_ok cs else digits_ok (d # cs)))"

definition digits_number :: "string \<Rightarrow> nat" where
  "digits_number s = foldl (\<lambda>n c. 10 * n + digit_value c) 0 s"

definition py_int :: "string \<Rightarrow> py_error + int" where
  "py_int s =
     (let t = strip s;
          negative = (t \<noteq> [] \<and> hd t = CHR ''-'');
          body = (if t \<noteq> [] \<and> (hd t = CHR ''-'' \<or> hd t = CHR ''+'') then tl t else t)
      in if digits_ok body
         then (let n = int (digits_number (filter (\<lambda>c. c \<noteq> CHR ''_'') body))
               in Inr (if negative then - n else n))
         else Inl (ValueError ''invalid literal for int() with base 10''))"

text \<open>
  The format specification \<open>0wd\<close> of an f-string: the decimal digits, padded
  with zeros on the left to the width \<open>w\<close>, the sign of a negative number
  before the zeros and counted in the width.
\<close>

definition digit_char :: "nat \<Rightarrow> char" where
  "digit_char d = char_of (48 + d)"

fun decimal :: "nat \<Rightarrow> string" where
  "decimal n = (if n < 10 then [digit_char n] else decimal (n div 10) @ [digit_char (n mod 10)])"

declare decimal.simps [simp del]

definition zfill :: "nat \<Rightarrow> string \<Rightarrow> string" where
  "zfill w s = replicate (w - length s) CHR ''0'' @ s"

definition format_0d :: "nat \<Rightarrow> int \<Rightarrow> string" where
  "format_0d w n =
     (if n < 0 then CHR ''-'' # zfill (w - 1) (decimal (nat (- n)))
      else zfill w (decimal (nat n)))"

section \<open>Timestamps in the editor (ui/subtitle_editor.py)\<close>

definition format_timestamp :: "subrip_time \<Rightarrow> string" where
  "format_timestamp timestamp =
     format_0d 2 (hours timestamp) @ '':'' @ format_0d 2 (minutes timestamp) @ '':''
       @ format_0d 2 (seconds timestamp) @ ''.'' @ format_0d 3 (milliseconds timestamp)"

definition parse_timestamp :: "string \<Rightarrow> py_error + subrip_time" where
  "parse_timestamp timestamp_str =
     (let parts = split_on CHR '':'' (replace_char CHR '','' CHR ''.'' timestamp_str)
      in if length parts \<noteq> 3 then Inl (ValueError ''Invalid timestamp format'')
         else
           case py_int (parts ! 0) of
             Inl e \<Rightarrow> Inl e
           | Inr hrs \<Rightarrow>
              (case py_int (parts ! 1) of
                 Inl e \<Rightarrow> Inl e
               | Inr mins \<Rightarrow>
                  (let seconds_parts = split_on CHR ''.'' (parts ! 2)
                   in case py_int (hd seconds_parts) of
                        Inl e \<Rightarrow> Inl e
                      | Inr secs \<Rightarrow>
                          if 1 < length seconds_parts
                          then (let ms_str = take 3 (ljust 3 CHR ''0'' (seconds_parts ! 1))
                                in case py_int ms_str of
                                     Inl e \<Rightarrow> Inl e
                                   | Inr ms \<Rightarrow> Inr (SubRipTime hrs mins secs ms))
                          else Inr (SubRipTime hrs mins secs 0))))"

section \<open>The subtitle editor (ui/subtitle_editor.py)\<close>

text \<open>
  The fields of the widget that the editing operations read and write. What
  the user supplies through the table, the text box and the dialogs (selected
  rows, text, cursor position, answers) is an argument of the operation. The
  table widget and its selection signals belong to the GUI toolkit and are not
  modelled: \<open>current_subtitle_index\<close> changes only where the code assigns it.
\<close>

record editor_state =
  subtitles :: "subrip_item list option"
  current_subtitle_index :: int
  modified :: bool

text \<open>
  An operation raises, returns early without touching the state (with or
  without a warning box), or runs to its end with a new state.
\<close>

datatype op_result =
    Raised py_error
  | NoChange
  | Updated editor_state

definition has_subtitles :: "editor_state \<Rightarrow> bool" where
  "has_subtitles ed = (case subtitles ed of None \<Rightarrow> False | Some subs \<Rightarrow> 0 < length subs)"

definition update_indices :: "subrip_item list \<Rightarrow> subrip_item list" where
  "update_indices subs =
     map (\<lambda>(i, sub). sub\<lparr>sub_index := int i + 1\<rparr>) (enumerate 0 subs)"

text \<open>
  \<open>add_subtitle\<close>. With a subtitle selected the new end is built as
  \<open>SubRipTime(0, 0, 5, 0)\<close>, and when a next subtitle exists the comparison
  reads \<open>next_sub.seconds\<close>; this branch renumbers. With none selected the
  new subtitle is appended and the indices are left as they are.
\<close>

definition add_subtitle :: "editor_state \<Rightarrow> op_result" where
  "add_subtitle ed =
     (case subtitles ed of
        None \<Rightarrow> NoChange
      | Some subs \<Rightarrow>
          if \<not> has_subtitles ed then NoChange
          else if 0 \<le> current_subtitle_index ed then
            (case list_get subs (current_subtitle_index ed) of
               Inl e \<Rightarrow> Raised e
             | Inr current_sub \<Rightarrow>
                 let new_start = sub_end current_sub;
                     five = SubRipTime 0 0 5 0;
                     checked =
                       (if current_subtitle_index ed < int (length subs) - 1 then
                          (case list_get subs (current_subtitle_index ed + 1) of
                             Inl e \<Rightarrow> Inl e
                           | Inr next_sub \<Rightarrow>
                              (case item_seconds next_sub of
                                 Inl e \<Rightarrow> Inl e
                               | Inr next_seconds \<Rightarrow>
                                   Inr (if hours new_start * 3600 + minutes new_start * 60
                                            + seconds new_start + 5
                                          > hours (sub_start next_sub) * 3600
                                            + minutes (sub_start next_sub) * 60 + next_seconds
                                        then sub_start next_sub else five)))
                        else Inr five)
                 in case checked of
                      Inl e \<Rightarrow> Raised e
                    | Inr new_end \<Rightarrow>
                        let new_sub = SubRipItem (int (length subs) + 1) new_start new_end []
                        in Updated (ed\<lparr>subtitles :=
                                          Some (update_indices
                                                  (list_insert subs (current_subtitle_index ed + 1)
                                                     new_sub)),
                                        modified := True\<rparr>))
          else
            let new_start = (if 0 < length subs then sub_end (last subs) else SubRipTime 0 0 0 0);
                new_end = SubRipTime (hours new_start) (minutes new_start)
                            (seconds new_start + 5) (milliseconds new_start);
                new_sub = SubRipItem (int (length subs) + 1) new_start new_end []
            in Updated (ed\<lparr>subtitles := Some (subs @ [new_sub]), modified := True\<rparr>))"

text \<open>\<open>delete_subtitle\<close>; \<open>reply_yes\<close> is the answer to the confirmation box.\<close>

definition delete_subtitle :: "editor_state \<Rightarrow> bool \<Rightarrow> op_result" where
  "delete_subtitle ed reply_yes =
     (case subtitles ed of
        None \<Rightarrow> NoChange
      | Some subs \<Rightarrow>
          if \<not> has_subtitles ed then NoChange
          else if current_subtitle_index ed < 0 then NoChange
          else if \<not> reply_yes then NoChange
          else
            case list_del subs (current_subtitle_index ed) of
              Inl e \<Rightarrow> Raised e
            | Inr rest \<Rightarrow>
                let subs' = update_indices rest;
                    idx = (if int (length subs') \<le> current_subtitle_index ed
                           then int (length subs') - 1 else current_subtitle_index ed)
                in Updated (ed\<lparr>subtitles := Some subs', current_subtitle_index := idx,
                               modified := True\<rparr>))"

text \<open>
  \<open>merge_subtitles\<close> of the editor; \<open>selected_rows\<close> are the rows selected in
  the table. The three loops of the source follow: the test that the sorted
  rows are consecutive, the text joined by line breaks, and the deletion of
  all rows but the first, from the last one down.
\<close>

fun consecutive :: "int list \<Rightarrow> bool" where
  "consecutive (a # b # rows) = (b = a + 1 \<and> consecutive (b # rows))"
| "consecutive rows = True"

fun merged_text_loop :: "subrip_item list \<Rightarrow> nat \<Rightarrow> string \<Rightarrow> int list \<Rightarrow> py_error + string" where
  "merged_text_loop subs i merged_text [] = Inr merged_text"
| "merged_text_loop subs i merged_text (row # rows) =
     (case list_get subs row of
        Inl e \<Rightarrow> Inl e
      | Inr sub \<Rightarrow>
          merged_text_loop subs (Suc i)
            ((if 0 < i then merged_text @ [CHR 0x0A] else merged_text) @ sub_text sub) rows)"

fun delete_rows :: "subrip_item list \<Rightarrow> int list \<Rightarrow> py_error + subrip_item list" where
  "delete_rows subs [] = Inr subs"
| "delete_rows subs (row # rows) =
     (case list_del subs row of Inl e \<Rightarrow> Inl e | Inr subs' \<Rightarrow> delete_rows subs' rows)"

definition editor_merge_subtitles :: "editor_state \<Rightarrow> int list \<Rightarrow> op_result" where
  "editor_merge_subtitles ed selected_rows =
     (if length selected_rows < 2 then NoChange
      else
        let rows = sort selected_rows
        in if \<not> consecutive rows then NoChange
           else
             case subtitles ed of
               None \<Rightarrow> Raised TypeError
             | Some subs \<Rightarrow>
                (case list_get subs (hd rows) of
                   Inl e \<Rightarrow> Raised e
                 | Inr first_sub \<Rightarrow>
                    (case list_get subs (last rows) of
                       Inl e \<Rightarrow> Raised e
                     | Inr last_sub \<Rightarrow>
                        (case merged_text_loop subs 0 [] rows of
                           Inl e \<Rightarrow> Raised e
                         | Inr merged_text \<Rightarrow>
                            (let merged_sub =
                                   SubRipItem (sub_index first_sub) (sub_start first_sub)
                                     (sub_end last_sub) merged_text
                             in case list_set subs (hd rows) merged_sub of
                                  Inl e \<Rightarrow> Raised e
                                | Inr subs1 \<Rightarrow>
                                   (case delete_rows subs1 (rev (tl rows)) of
                                      Inl e \<Rightarrow> Raised e
                                    | Inr subs2 \<Rightarrow>
                                        Updated (ed\<lparr>subtitles := Some (update_indices subs2),
                                                    modified := True\<rparr>)))))))"

text \<open>
  \<open>split_subtitle\<close> of the editor; \<open>text\<close> is the content of the text box and
  \<open>cursor_pos\<close> the position of its cursor. The selected item is changed in
  place (text, then end) before the second item is built, and the second item
  takes its end from the item so changed.
\<close>

definition editor_split_subtitle :: "editor_state \<Rightarrow> string \<Rightarrow> int \<Rightarrow> op_result" where
  "editor_split_subtitle ed text cursor_pos =
     (case subtitles ed of
        None \<Rightarrow> NoChange
      | Some subs \<Rightarrow>
          if \<not> has_subtitles ed then NoChange
          else if current_subtitle_index ed < 0 then NoChange
          else if cursor_pos \<le> 0 \<or> int (length text) \<le> cursor_pos then NoChange
          else
            case list_get subs (current_subtitle_index ed) of
              Inl e \<Rightarrow> Raised e
            | Inr current_sub \<Rightarrow>
                let start_ms = ordinal (sub_start current_sub);
                    end_ms = ordinal (sub_end current_sub);
                    duration_ms = end_ms - start_ms;
                    text_before = strip (take (nat cursor_pos) text);
                    text_after = strip (drop (nat cursor_pos) text)
                in if text_before = [] \<or> text_after = [] then NoChange
                   else
                     let split_ratio = real_of_int cursor_pos / real (length text);
                         split_ms = start_ms + py_int_of_real (real_of_int duration_ms * split_ratio);
                         split_time = from_ordinal split_ms;
                         current_sub' = current_sub\<lparr>sub_text := text_before, sub_end := split_time\<rparr>;
                         new_sub = SubRipItem (sub_index current_sub' + 1) split_time
                                     (sub_end current_sub') text_after
                     in case list_set subs (current_subtitle_index ed) current_sub' of
                          Inl e \<Rightarrow> Raised e
                        | Inr subs1 \<Rightarrow>
                            Updated (ed\<lparr>subtitles :=
                                           Some (update_indices
                                                   (list_insert subs1 (current_subtitle_index ed + 1)
                                                      new_sub)),
                                         modified := True\<rparr>))"

text \<open>
  \<open>edit_timing\<close>; \<open>accepted\<close> says that the dialog was closed with OK, and the
  two strings are the contents of its fields. An exception of
  \<open>parse_timestamp\<close> is caught and shown as a warning. The indices are not
  renumbered and the list is not reordered.
\<close>

definition edit_timing :: "editor_state \<Rightarrow> bool \<Rightarrow> string \<Rightarrow> string \<Rightarrow> op_result" where
  "edit_timing ed accepted start_time_str end_time_str =
     (case subtitles ed of
        None \<Rightarrow> NoChange
      | Some subs \<Rightarrow>
          if \<not> has_subtitles ed then NoChange
          else if current_subtitle_index ed < 0 then NoChange
          else
            case list_get subs (current_subtitle_index ed) of
              Inl e \<Rightarrow> Raised e
            | Inr current_sub \<Rightarrow>
                if \<not> accepted then NoChange
                else
                  case parse_timestamp start_time_str of
                    Inl e \<Rightarrow> NoChange
                  | Inr start_time \<Rightarrow>
                     (case parse_timestamp end_time_str of
                        Inl e \<Rightarrow> NoChange
                      | Inr end_time \<Rightarrow>
                         (case list_set subs (current_subtitle_index ed)
                                 (current_sub\<lparr>sub_start := start_time, sub_end := end_time\<rparr>) of
                            Inl e \<Rightarrow> Raised e
                          | Inr subs' \<Rightarrow>
                              Updated (ed\<lparr>subtitles := Some subs', modified := True\<rparr>))))"

text \<open>The two properties of a timeline that the operations are measured against.\<close>

definition indices_sequential :: "subrip_item list \<Rightarrow> bool" where
  "indices_sequential subs = (map sub_index subs = map int [1 ..< Suc (length subs)])"

definition ascending_start :: "subrip_item list \<Rightarrow> bool" where
  "ascending_start subs = sorted (map (\<lambda>sub. ordinal (sub_start sub)) subs)"

text \<open>The list of subtitles of an editor, empty when none is loaded.\<close>

definition timeline :: "editor_state \<Rightarrow> subrip_item list" where
  "timeline ed = (case subtitles ed of None \<Rightarrow> [] | Some subs \<Rightarrow> subs)"

text \<open>An editor with two subtitles loaded under the indices 7 and 9, the second selected.\<close>

definition example_editor :: editor_state where
  "example_editor =
     \<lparr>subtitles = Some
        [SubRipItem 7 (SubRipTime 0 0 1 0) (SubRipTime 0 0 5 0) ''abcd'',
         SubRipItem 9 (SubRipTime 0 0 6 0) (SubRipTime 0 0 7 0) ''x y''],
      current_subtitle_index = 1, modified = False\<rparr>"

section \<open>Segmentation: the loop and the specification agree\<close>

lemma item_content_of_token: "item_content (item_of_token t) = Inr (tok_content t)"
  by (simp add: item_content_def item_of_token_def dict_get_def)

lemma group_loop_open:
  "group_loop segs (Some c) (map item_of_token ts) =
     Inr (segs @ spec_walk c (filter is_speech ts))"
proof (induction ts arbitrary: segs c)
  case Nil
  show ?case by simp
next
  case (Cons t ts)
  show ?case
  proof (cases "is_speech t")
    case False
    then have "item_type (item_of_token t) \<noteq> Some ''pronunciation''"
      by (simp add: is_speech_def item_of_token_def)
    with False Cons.IH show ?thesis by simp
  next
    case True
    then have ty: "item_type (item_of_token t) = Some ''pronunciation''"
      by (simp add: is_speech_def item_of_token_def)
    have st: "dict_get (item_start_time (item_of_token t)) 0 = tok_start t"
      and en: "dict_get (item_end_time (item_of_token t)) 0 = tok_end t"
      by (simp_all add: item_of_token_def dict_get_def)
    show ?thesis
    proof (cases "tok_start t - seg_end_time c < 1 / 2")
      case near: True
      have "c\<lparr>seg_text := seg_text c @ '' '' @ tok_content t, seg_end_time := tok_end t\<rparr>
              = extend_accumulator c t"
        by (simp add: extend_accumulator_def)
      with near True ty st en Cons.IH show ?thesis
        by (simp add: item_content_of_token)
    next
      case far: False
      with True ty st en Cons.IH [of "segs @ [c]" "open_accumulator t"] show ?thesis
        by (simp add: item_content_of_token open_accumulator_def)
    qed
  qed
qed

lemma group_loop_closed:
  "group_loop [] None (map item_of_token ts) = Inr (spec_segment ts)"
proof (induction ts)
  case Nil
  show ?case by (simp add: spec_segment_def)
next
  case (Cons t ts)
  show ?case
  proof (cases "is_speech t")
    case False
    then have "item_type (item_of_token t) \<noteq> Some ''pronunciation''"
      by (simp add: is_speech_def item_of_token_def)
    with False Cons.IH show ?thesis by (simp add: spec_segment_def)
  next
    case True
    then have ty: "item_type (item_of_token t) = Some ''pronunciation''"
      by (simp add: is_speech_def item_of_token_def)
    have st: "dict_get (item_start_time (item_of_token t)) 0 = tok_start t"
      and en: "dict_get (item_end_time (item_of_token t)) 0 = tok_end t"
      by (simp_all add: item_of_token_def dict_get_def)
    from True ty st en
      group_loop_open [of "[]" "open_accumulator t" ts]
    show ?thesis
      by (simp add: item_content_of_token open_accumulator_def spec_segment_def)
  qed
qed

text \<open>
  C1. For every list of transcript tokens the segmentation pass returns what
  the left-to-right algorithm of the specification gives: tokens that are not
  of kind pronunciation are dropped, the first kept token opens the
  accumulator, a kept token starting less than half a second after the
  accumulator's end extends it (text, one space, content; end taken from the
  token), any other kept token closes it and opens a new one, and the last
  accumulator is emitted at the end. The tokens hi 0.0-0.3, there 0.35-0.7,
  bye 2.0-2.3 give the two segments 0.0-0.7 "hi there" and 2.0-2.3 "bye", and
  no token gives no segment.
\<close>

theorem C1_segmentation_algorithm:
  "group_transcript_items (map item_of_token tokens) = Inr (spec_segment tokens)
   \<and> group_transcript_items
       (map item_of_token [tok ''hi'' 0 (3 / 10), tok ''there'' (35 / 100) (7 / 10),
                           tok ''bye'' 2 (23 / 10)])
     = Inr [\<lparr>seg_start_time = 0, seg_end_time = 7 / 10, seg_text = ''hi there''\<rparr>,
            \<lparr>seg_start_time = 2, seg_end_time = 23 / 10, seg_text = ''bye''\<rparr>]
   \<and> group_transcript_items [] = Inr []"
  by (simp add: group_transcript_items_def group_loop_closed
        item_of_token_def tok_def item_content_def dict_get_def)

section \<open>Segmentation: the end of a segment\<close>

lemma join_words_snoc: "ws \<noteq> [] \<Longrightarrow> join_words (ws @ [w]) = join_words ws @ '' '' @ w"
  by (induction ws rule: join_words.induct) simp_all

lemma extend_segment_of_group:
  "g \<noteq> [] \<Longrightarrow> extend_accumulator (segment_of_group g) t = segment_of_group (g @ [t])"
  by (simp add: extend_accumulator_def segment_of_group_def join_words_snoc)

lemma open_segment_of_group: "open_accumulator t = segment_of_group [t]"
  by (simp add: open_accumulator_def segment_of_group_def)

lemma spec_walk_groups:
  "g \<noteq> [] \<Longrightarrow> spec_walk (segment_of_group g) ts = map segment_of_group (groups_walk g ts)"
proof (induction ts arbitrary: g)
  case Nil
  show ?case by simp
next
  case (Cons t ts)
  have e: "seg_end_time (segment_of_group g) = tok_end (last g)"
    by (simp add: segment_of_group_def)
  from Cons.prems Cons.IH [of "g @ [t]"] Cons.IH [of "[t]"] show ?case
    by (simp add: e extend_segment_of_group open_segment_of_group)
qed

lemma spec_segment_groups: "spec_segment tokens = map segment_of_group (token_groups tokens)"
  by (simp add: spec_segment_def token_groups_def open_segment_of_group spec_walk_groups
      split: list.splits)

lemma concat_groups_walk: "concat (groups_walk g ts) = g @ ts"
  by (induction ts arbitrary: g) simp_all

lemma groups_walk_nonempty: "g \<noteq> [] \<Longrightarrow> [] \<notin> set (groups_walk g ts)"
  by (induction ts arbitrary: g) auto

lemma token_groups_partition:
  "concat (token_groups tokens) = filter is_speech tokens \<and> [] \<notin> set (token_groups tokens)"
  by (simp add: token_groups_def concat_groups_walk groups_walk_nonempty split: list.splits)

lemma negative_gap_extends:
  "is_speech t \<Longrightarrow> tok_start t < seg_end_time c \<Longrightarrow>
   group_loop segs (Some c) (item_of_token t # items) =
     group_loop segs (Some (c\<lparr>seg_text := seg_text c @ '' '' @ tok_content t,
                               seg_end_time := tok_end t\<rparr>)) items"
  by (simp add: is_speech_def item_content_of_token) (simp add: item_of_token_def dict_get_def)

text \<open>
  C10. A kept token that starts before the end of the open accumulator passes
  the gap test and extends the accumulator, whose end becomes the token's end
  whatever the two ends are. So the segments are the groups of consecutive kept
  tokens, each with the start of its first token, the end of its last token
  and the contents joined by spaces: the groups are not empty and, put end to
  end, are the kept tokens. With the tokens a 0-5 and b 1-2 the one segment
  ends at 2, not at 5.
\<close>

theorem C10_segment_end_is_last_token_end:
  "(is_speech t \<and> tok_start t < seg_end_time c \<longrightarrow>
      group_loop segs (Some c) (item_of_token t # items) =
        group_loop segs (Some (c\<lparr>seg_text := seg_text c @ '' '' @ tok_content t,
                                  seg_end_time := tok_end t\<rparr>)) items)
   \<and> group_transcript_items (map item_of_token tokens)
       = Inr (map segment_of_group (token_groups tokens))
   \<and> concat (token_groups tokens) = filter is_speech tokens
   \<and> [] \<notin> set (token_groups tokens)
   \<and> group_transcript_items (map item_of_token [tok ''a'' 0 5, tok ''b'' 1 2])
       = Inr [\<lparr>seg_start_time = 0, seg_end_time = 2, seg_text = ''a b''\<rparr>]"
proof -
  have "group_transcript_items (map item_of_token [tok ''a'' 0 5, tok ''b'' 1 2])
       = Inr [\<lparr>seg_start_time = 0, seg_end_time = 2, seg_text = ''a b''\<rparr>]"
    by (simp add: group_transcript_items_def item_of_token_def tok_def item_content_def
          dict_get_def)
  with negative_gap_extends [of t c segs items] token_groups_partition [of tokens]
  show ?thesis
    by (simp add: group_transcript_items_def group_loop_closed spec_segment_groups)
qed

theorem C10_segment_end_witness:
  "is_speech (tok ''b'' 1 2)
   \<and> tok_start (tok ''b'' 1 2) < seg_end_time (open_accumulator (tok ''a'' 0 5))
   \<and> group_loop [] (Some (open_accumulator (tok ''a'' 0 5))) [item_of_token (tok ''b'' 1 2)]
       = Inr [\<lparr>seg_start_time = 0, seg_end_time = 2, seg_text = ''a b''\<rparr>]"
  using C10_segment_end_is_last_token_end
          [of "tok ''b'' 1 2" "open_accumulator (tok ''a'' 0 5)" "[]" "[]" "[]"]
  by (simp add: is_speech_def tok_def open_accumulator_def)

section \<open>Seconds to a timestamp: whole days are dropped\<close>


lemma round_half_even_of_int: "round_half_even (of_int n) = n"
  by (simp add: round_half_even_def)




lemma microseconds_whole_ms: "microseconds_of_seconds (real_of_int p / 1000) = p * 1000"
proof -
  have "real_of_int p / 1000 * 1000000 = of_int (p * 1000)" by simp
  then show ?thesis by (simp only: microseconds_of_seconds_def round_half_even_of_int)
qed

lemma py_int_of_real_div: "0 \<le> u \<Longrightarrow> py_int_of_real (real_of_int u / 1000) = u div 1000"
proof -
  assume "0 \<le> u"
  have "\<lfloor>real_of_int u / real_of_int 1000\<rfloor> = u div 1000"
    by (rule floor_divide_of_int_eq)
  with \<open>0 \<le> u\<close> show ?thesis by (simp add: py_int_of_real_def)
qed

text \<open>Hours, minutes, seconds and milliseconds put together again.\<close>

lemma fields_of_day:
  "m mod 86400000000 = m \<Longrightarrow>
   SubRipTime (m div 1000000 div 3600) (m div 1000000 mod 3600 div 60)
       (m div 1000000 mod 3600 mod 60) (m mod 1000000 div 1000)
     = \<lparr>ordinal = m div 1000\<rparr>"
proof -
  define S where "S = m div 1000000"
  define U where "U = m mod 1000000"
  have "S div 3600 * 3600000 + S mod 3600 div 60 * 60000 + S mod 3600 mod 60 * 1000 = S * 1000"
  proof -
    have "S mod 3600 div 60 * 60 + S mod 3600 mod 60 = S mod 3600" by simp
    moreover have "S div 3600 * 3600 + S mod 3600 = S" by simp
    ultimately show ?thesis by linarith
  qed
  moreover have "m div 1000 = S * 1000 + U div 1000"
  proof -
    have "m = U + S * 1000 * 1000" by (simp add: S_def U_def)
    then have "m div 1000 = (U + S * 1000 * 1000) div 1000" by simp
    also have "\<dots> = S * 1000 + U div 1000" by (simp only: div_mult_self1)
    finally show ?thesis .
  qed
  ultimately show ?thesis
    by (simp add: SubRipTime_def S_def U_def)
qed

lemma seconds_to_subrip_time_in_range:
  assumes "0 \<le> microseconds_of_seconds t"
    and "microseconds_of_seconds t < 86400000000000000000"
  shows "seconds_to_subrip_time t
           = Inr \<lparr>ordinal = microseconds_of_seconds t mod 86400000000 div 1000\<rparr>"
proof -
  define us where "us = microseconds_of_seconds t"
  define m where "m = us mod 86400000000"
  have d: "0 \<le> us div 86400000000" "us div 86400000000 \<le> 999999999"
    using assms unfolding us_def [symmetric] by arith+
  have m: "m mod 86400000000 = m" by (simp add: m_def)
  have u: "us mod 1000000 = m mod 1000000"
    by (simp add: m_def mod_mod_cancel)
  have u0: "0 \<le> m mod 1000000" by simp
  from d have fields: "seconds_to_subrip_time t =
      Inr (SubRipTime (m div 1000000 div 3600) (m div 1000000 mod 3600 div 60)
            (m div 1000000 mod 3600 mod 60) (m mod 1000000 div 1000))"
    by (simp add: seconds_to_subrip_time_def timedelta_seconds_def timedelta_microseconds_def
          Let_def us_def [symmetric] m_def [symmetric] u py_int_of_real_div [OF u0])
  have "seconds_to_subrip_time t = Inr \<lparr>ordinal = m div 1000\<rparr>"
    by (simp only: fields fields_of_day [OF m])
  then show ?thesis by (simp only: m_def us_def)
qed



lemma split_day_ms: "p * 1000 mod 86400000000 div 1000 = p mod (86400000::int)"
proof -
  have "p * 1000 mod (86400000 * 1000) = (p mod 86400000) * 1000"
    by (simp only: mult_mod_left)
  then show ?thesis by simp
qed

lemma seconds_to_subrip_time_whole_ms:
  assumes "0 \<le> p" "p \<le> 86399999999999999"
  shows "seconds_to_subrip_time (real_of_int p / 1000) = Inr (from_ordinal (p mod 86400000))"
proof -
  have "0 \<le> microseconds_of_seconds (real_of_int p / 1000)"
    "microseconds_of_seconds (real_of_int p / 1000) < 86400000000000000000"
    using assms by (simp_all add: microseconds_whole_ms)
  then show ?thesis
    by (simp add: seconds_to_subrip_time_in_range microseconds_whole_ms split_day_ms
          from_ordinal_def SubRipTime_def)
qed






section \<open>Splitting at a position in the processor\<close>

text \<open>
  At a position of whole milliseconds the split returns the subtitle and no
  second part when the position, reduced modulo one day, lies outside the
  bounds, and raises when it lies inside: the subtitle cannot be copied.
\<close>

lemma processor_split_within_range:
  assumes "0 \<le> p" "p \<le> 86399999999999999"
  shows "processor_split_subtitle subtitle (real_of_int p / 1000) =
     (if ordinal (sub_start subtitle) \<le> p mod 86400000
         \<and> p mod 86400000 \<le> ordinal (sub_end subtitle)
      then Inl AttributeError else Inr (subtitle, None))"
  by (simp add: processor_split_subtitle_def seconds_to_subrip_time_whole_ms [OF assms]
        item_copy_def from_ordinal_def SubRipTime_def)

text \<open>
  C4. The split is claimed to return two parts that meet at the position for
  every position between the start and the end of the segment. A subtitle from
  1000 ms to 5000 ms split at 3 seconds: the position is inside the bounds,
  \<open>subtitle.copy()\<close> is called and raises, and no part is returned. At 6
  seconds, outside the bounds, the subtitle comes back with no second part, as
  claimed. A subtitle from 25:00:00 to 26:00:00 split at 91800 seconds
  (25:30:00): the position is converted to 01:30:00, found outside the bounds,
  and the subtitle comes back unsplit.
\<close>

theorem C4_split_inside_bounds:
  "processor_split_subtitle (SubRipItem 1 (from_ordinal 1000) (from_ordinal 5000) ''text'') 3
     = Inl AttributeError
   \<and> processor_split_subtitle (SubRipItem 1 (from_ordinal 1000) (from_ordinal 5000) ''text'') 6
     = Inr (SubRipItem 1 (from_ordinal 1000) (from_ordinal 5000) ''text'', None)
   \<and> ordinal (SubRipTime 25 0 0 0) \<le> 91800 * 1000
   \<and> 91800 * 1000 \<le> ordinal (SubRipTime 26 0 0 0)
   \<and> seconds_to_subrip_time 91800 = Inr (SubRipTime 1 30 0 0)
   \<and> processor_split_subtitle
         (SubRipItem 1 (SubRipTime 25 0 0 0) (SubRipTime 26 0 0 0) ''late'') 91800
       = Inr (SubRipItem 1 (SubRipTime 25 0 0 0) (SubRipTime 26 0 0 0) ''late'', None)"
  by code_simp

section \<open>Merging in the processor\<close>

text \<open>
  With two indices or more, of which at least one lies in the list, the merge
  gets past both guards and raises at the copy.
\<close>

lemma processor_merge_reaches_copy:
  "2 \<le> length indices \<Longrightarrow>
   filter (\<lambda>i. 0 \<le> i \<and> i < int (length subs)) (sort indices) \<noteq> [] \<Longrightarrow>
   processor_merge_subtitles subs indices = Inl AttributeError"
  by (auto simp: processor_merge_subtitles_def Let_def item_copy_def)

text \<open>
  C5. Merge is claimed to return no merged subtitle and no removed index when
  fewer than two of the given indices lie in the list. With one subtitle and
  the indices 0 and 5 only the index 0 lies in the list; the guard after the
  filter asks for one subtitle, not two, the call goes on to the copy and
  raises. With the indices 5 and 7, none of them in the list, the result is the
  one claimed.
\<close>

theorem C5_merge_with_one_valid_index:
  "filter (\<lambda>i. 0 \<le> i \<and> i < int (length [SubRipItem 1 (SubRipTime 0 0 1 0)
                                                (SubRipTime 0 0 2 0) ''a''])) [0, 5] = [0]
   \<and> processor_merge_subtitles
        [SubRipItem 1 (SubRipTime 0 0 1 0) (SubRipTime 0 0 2 0) ''a''] [0, 5]
      = Inl AttributeError
   \<and> processor_merge_subtitles
        [SubRipItem 1 (SubRipTime 0 0 1 0) (SubRipTime 0 0 2 0) ''a''] [5, 7]
      = Inr (None, [])"
  by (simp add: processor_merge_subtitles_def item_copy_def)

section \<open>Loading a subtitle file\<close>

text \<open>
  C6, as claimed: a file with a malformed block makes the load signal a typed
  error to its caller, never a partial or empty result. A file of three
  blocks, the second malformed: the caller receives the first and the third
  item, no error, and nothing is printed.
\<close>

theorem C6_malformed_block_passed_over:
  "load_srt
     (pysrt_open
        (Map.empty(''movie.srt'' \<mapsto>
           [Block (SubRipItem 1 (SubRipTime 0 0 1 0) (SubRipTime 0 0 2 0) ''a''),
            Malformed,
            Block (SubRipItem 3 (SubRipTime 0 0 5 0) (SubRipTime 0 0 6 0) ''c'')])))
     ''movie.srt''
   = (Inr [SubRipItem 1 (SubRipTime 0 0 1 0) (SubRipTime 0 0 2 0) ''a'',
           SubRipItem 3 (SubRipTime 0 0 5 0) (SubRipTime 0 0 6 0) ''c''], [])"
  by (simp add: load_srt_def pysrt_open_def)

text \<open>
  C6, as the code has it: \<open>load_srt\<close> never raises. When the library returns
  a list the caller receives it and nothing is printed; when the library raises,
  the message is printed after \<open>Error loading SRT file: \<close> and the caller
  receives the empty list. With the library's default error handling the list
  holds the items of the blocks that parse, and a file that cannot be opened
  gives the empty list.
\<close>

theorem C6_load_srt_never_raises:
  "load_srt opener file_path
     = (case opener file_path of
          Inl e \<Rightarrow> (Inr [], [''Error loading SRT file: '' @ e])
        | Inr subs \<Rightarrow> (Inr subs, []))
   \<and> load_srt (pysrt_open files) file_path
     = (case files file_path of
          None \<Rightarrow> (Inr [], [''Error loading SRT file: No such file or directory''])
        | Some blocks \<Rightarrow> (Inr (parsed_items blocks), []))"
  by (simp add: load_srt_def pysrt_open_def split: sum.splits option.splits)

section \<open>Renumbering in the editor\<close>

lemma map_sub_index_enumerate:
  "map sub_index (map (\<lambda>(i, sub). sub\<lparr>sub_index := int i + 1\<rparr>) (enumerate n subs))
     = map int [Suc n ..< Suc n + length subs]"
  by (induction subs arbitrary: n) (simp_all add: upt_conv_Cons del: upt_Suc)

lemma map_sub_index_update_indices:
  "map sub_index (update_indices subs) = map int [1 ..< Suc (length subs)]"
  using map_sub_index_enumerate [of 0 subs] by (simp add: update_indices_def)

lemma length_update_indices: "length (update_indices subs) = length subs"
  by (simp add: update_indices_def)

lemma indices_sequential_update_indices: "indices_sequential (update_indices subs)"
  by (simp add: indices_sequential_def map_sub_index_update_indices length_update_indices)

lemma add_subtitle_renumbers:
  "0 \<le> current_subtitle_index ed \<Longrightarrow> add_subtitle ed = Updated ed' \<Longrightarrow>
   indices_sequential (timeline ed')"
  by (auto simp: add_subtitle_def timeline_def Let_def indices_sequential_update_indices
      split: option.splits sum.splits if_splits)

lemma delete_subtitle_renumbers:
  "delete_subtitle ed reply_yes = Updated ed' \<Longrightarrow> indices_sequential (timeline ed')"
  by (auto simp: delete_subtitle_def timeline_def Let_def indices_sequential_update_indices
      split: option.splits sum.splits if_splits)

lemma editor_merge_renumbers:
  "editor_merge_subtitles ed rows = Updated ed' \<Longrightarrow> indices_sequential (timeline ed')"
  by (auto simp: editor_merge_subtitles_def timeline_def Let_def
        indices_sequential_update_indices
      split: option.splits sum.splits if_splits)

lemma editor_split_renumbers:
  "editor_split_subtitle ed content cursor_pos = Updated ed' \<Longrightarrow>
   indices_sequential (timeline ed')"
  by (auto simp: editor_split_subtitle_def timeline_def Let_def
        indices_sequential_update_indices
      split: option.splits sum.splits if_splits)

lemma norm_index_less: "norm_index xs i = Inr j \<Longrightarrow> j < length xs"
  by (auto simp: norm_index_def Let_def split: if_splits)

lemma list_set_indices:
  "list_get subs i = Inr cur \<Longrightarrow>
   list_set subs i (cur\<lparr>sub_start := a, sub_end := b\<rparr>) = Inr subs' \<Longrightarrow>
   map sub_index subs' = map sub_index subs"
proof -
  assume g: "list_get subs i = Inr cur"
    and u: "list_set subs i (cur\<lparr>sub_start := a, sub_end := b\<rparr>) = Inr subs'"
  from g obtain j where j: "norm_index subs i = Inr j" and cur: "cur = subs ! j"
    by (auto simp: list_get_def split: sum.splits)
  from j have lt: "j < length subs" by (rule norm_index_less)
  from u j have "subs' = subs[j := cur\<lparr>sub_start := a, sub_end := b\<rparr>]"
    by (simp add: list_set_def)
  then have "map sub_index subs' = (map sub_index subs)[j := map sub_index subs ! j]"
    using lt cur by (simp add: map_update)
  then show ?thesis by (simp only: list_update_id)
qed

lemma edit_timing_keeps_indices:
  "edit_timing ed accepted s e = Updated ed' \<Longrightarrow>
   map sub_index (timeline ed') = map sub_index (timeline ed)"
  by (auto simp: edit_timing_def timeline_def Let_def
      split: option.splits sum.splits if_splits dest: list_set_indices)

text \<open>
  C2, as claimed: after every mutating operation the indices are 1 to N and
  the subtitles are in ascending order of their start. A timeline of two
  subtitles with the indices 1 and 2, in ascending order of start; the timing
  of the first is set to 00:00:09.000 - 00:00:10.000. The operation completes,
  and the subtitle that starts at 9 seconds stands before the one that starts
  at 6 seconds.
\<close>

theorem C2_retime_breaks_order:
  "indices_sequential
     [SubRipItem 1 (SubRipTime 0 0 1 0) (SubRipTime 0 0 5 0) ''abcd'',
      SubRipItem 2 (SubRipTime 0 0 6 0) (SubRipTime 0 0 7 0) ''x y'']
   \<and> ascending_start
     [SubRipItem 1 (SubRipTime 0 0 1 0) (SubRipTime 0 0 5 0) ''abcd'',
      SubRipItem 2 (SubRipTime 0 0 6 0) (SubRipTime 0 0 7 0) ''x y'']
   \<and> edit_timing
       \<lparr>subtitles = Some
          [SubRipItem 1 (SubRipTime 0 0 1 0) (SubRipTime 0 0 5 0) ''abcd'',
           SubRipItem 2 (SubRipTime 0 0 6 0) (SubRipTime 0 0 7 0) ''x y''],
        current_subtitle_index = 0, modified = False\<rparr>
       True ''00:00:09.000'' ''00:00:10.000''
     = Updated
       \<lparr>subtitles = Some
          [SubRipItem 1 (SubRipTime 0 0 9 0) (SubRipTime 0 0 10 0) ''abcd'',
           SubRipItem 2 (SubRipTime 0 0 6 0) (SubRipTime 0 0 7 0) ''x y''],
        current_subtitle_index = 0, modified = True\<rparr>
   \<and> \<not> ascending_start
     [SubRipItem 1 (SubRipTime 0 0 9 0) (SubRipTime 0 0 10 0) ''abcd'',
      SubRipItem 2 (SubRipTime 0 0 6 0) (SubRipTime 0 0 7 0) ''x y'']"
  by code_simp

text \<open>
  C2, as the code has it. After adding behind the selected subtitle, deleting,
  merging and splitting in the editor, whenever the operation runs to its end,
  the indices of the subtitles are 1 to N in the order of the list. Setting
  the timing leaves every index as it was. No operation orders the list by
  start time.
\<close>

theorem C2_renumbering:
  "(0 \<le> current_subtitle_index ed \<and> add_subtitle ed = Updated ed1
      \<longrightarrow> indices_sequential (timeline ed1))
   \<and> (delete_subtitle ed reply_yes = Updated ed2 \<longrightarrow> indices_sequential (timeline ed2))
   \<and> (editor_merge_subtitles ed selected_rows = Updated ed3
      \<longrightarrow> indices_sequential (timeline ed3))
   \<and> (editor_split_subtitle ed content cursor_pos = Updated ed4
      \<longrightarrow> indices_sequential (timeline ed4))
   \<and> (edit_timing ed accepted start_time_str end_time_str = Updated ed5
      \<longrightarrow> map sub_index (timeline ed5) = map sub_index (timeline ed))"
  using add_subtitle_renumbers [of ed ed1] delete_subtitle_renumbers [of ed reply_yes ed2]
    editor_merge_renumbers [of ed selected_rows ed3]
    editor_split_renumbers [of ed content cursor_pos ed4]
    edit_timing_keeps_indices [of ed accepted start_time_str end_time_str ed5]
  by blast

theorem C2_renumbering_witness:
  "0 \<le> current_subtitle_index example_editor
   \<and> map sub_index (timeline example_editor) = [7, 9]
   \<and> add_subtitle example_editor = Updated
        (example_editor\<lparr>subtitles := Some
           [SubRipItem 1 (SubRipTime 0 0 1 0) (SubRipTime 0 0 5 0) ''abcd'',
            SubRipItem 2 (SubRipTime 0 0 6 0) (SubRipTime 0 0 7 0) ''x y'',
            SubRipItem 3 (SubRipTime 0 0 7 0) (SubRipTime 0 0 5 0) ''''],
          modified := True\<rparr>)
   \<and> delete_subtitle example_editor True = Updated
        (example_editor\<lparr>subtitles := Some
           [SubRipItem 1 (SubRipTime 0 0 1 0) (SubRipTime 0 0 5 0) ''abcd''],
          current_subtitle_index := 0, modified := True\<rparr>)
   \<and> editor_merge_subtitles example_editor [1, 0] = Updated
        (example_editor\<lparr>subtitles := Some
           [SubRipItem 1 (SubRipTime 0 0 1 0) (SubRipTime 0 0 7 0) (''abcd'' @ [CHR 0x0A] @ ''x y'')],
          modified := True\<rparr>)
   \<and> editor_split_subtitle example_editor ''x y'' 1 = Updated
        (example_editor\<lparr>subtitles := Some
           [SubRipItem 1 (SubRipTime 0 0 1 0) (SubRipTime 0 0 5 0) ''abcd'',
            SubRipItem 2 (SubRipTime 0 0 6 0) (SubRipTime 0 0 6 333) ''x'',
            SubRipItem 3 (SubRipTime 0 0 6 333) (SubRipTime 0 0 6 333) ''y''],
          modified := True\<rparr>)
   \<and> edit_timing example_editor True ''00:00:09.000'' ''00:00:10.000'' = Updated
        (example_editor\<lparr>subtitles := Some
           [SubRipItem 7 (SubRipTime 0 0 1 0) (SubRipTime 0 0 5 0) ''abcd'',
            SubRipItem 9 (SubRipTime 0 0 9 0) (SubRipTime 0 0 10 0) ''x y''],
          modified := True\<rparr>)
   \<and> indices_sequential
        [SubRipItem 1 (SubRipTime 0 0 1 0) (SubRipTime 0 0 5 0) ''abcd'',
         SubRipItem 2 (SubRipTime 0 0 6 0) (SubRipTime 0 0 7 0) ''x y'',
         SubRipItem 3 (SubRipTime 0 0 7 0) (SubRipTime 0 0 5 0) '''']"
proof -
  let ?e1 = "example_editor\<lparr>subtitles := Some
           [SubRipItem 1 (SubRipTime 0 0 1 0) (SubRipTime 0 0 5 0) ''abcd'',
            SubRipItem 2 (SubRipTime 0 0 6 0) (SubRipTime 0 0 7 0) ''x y'',
            SubRipItem 3 (SubRipTime 0 0 7 0) (SubRipTime 0 0 5 0) ''''],
          modified := True\<rparr>"
  let ?e2 = "example_editor\<lparr>subtitles := Some
           [SubRipItem 1 (SubRipTime 0 0 1 0) (SubRipTime 0 0 5 0) ''abcd''],
          current_subtitle_index := 0, modified := True\<rparr>"
  let ?e3 = "example_editor\<lparr>subtitles := Some
           [SubRipItem 1 (SubRipTime 0 0 1 0) (SubRipTime 0 0 7 0) (''abcd'' @ [CHR 0x0A] @ ''x y'')],
          modified := True\<rparr>"
  let ?e4 = "example_editor\<lparr>subtitles := Some
           [SubRipItem 1 (SubRipTime 0 0 1 0) (SubRipTime 0 0 5 0) ''abcd'',
            SubRipItem 2 (SubRipTime 0 0 6 0) (SubRipTime 0 0 6 333) ''x'',
            SubRipItem 3 (SubRipTime 0 0 6 333) (SubRipTime 0 0 6 333) ''y''],
          modified := True\<rparr>"
  let ?e5 = "example_editor\<lparr>subtitles := Some
           [SubRipItem 7 (SubRipTime 0 0 1 0) (SubRipTime 0 0 5 0) ''abcd'',
            SubRipItem 9 (SubRipTime 0 0 9 0) (SubRipTime 0 0 10 0) ''x y''],
          modified := True\<rparr>"
  have sel: "0 \<le> current_subtitle_index example_editor"
    and idx: "map sub_index (timeline example_editor) = [7, 9]"
    by (simp_all add: example_editor_def timeline_def SubRipItem_def)
  have a: "add_subtitle example_editor = Updated ?e1" by code_simp
  have d: "delete_subtitle example_editor True = Updated ?e2" by code_simp
  have m: "editor_merge_subtitles example_editor [1, 0] = Updated ?e3" by code_simp
  have s: "editor_split_subtitle example_editor ''x y'' 1 = Updated ?e4" by code_simp
  have t: "edit_timing example_editor True ''00:00:09.000'' ''00:00:10.000'' = Updated ?e5"
    by code_simp
  from C2_renumbering [of example_editor ?e1 True ?e2 "[1, 0]" ?e3 "''x y''" 1 ?e4 True
      "''00:00:09.000''" "''00:00:10.000''" ?e5] sel a
  have "indices_sequential (timeline ?e1)" by blast
  then have "indices_sequential
        [SubRipItem 1 (SubRipTime 0 0 1 0) (SubRipTime 0 0 5 0) ''abcd'',
         SubRipItem 2 (SubRipTime 0 0 6 0) (SubRipTime 0 0 7 0) ''x y'',
         SubRipItem 3 (SubRipTime 0 0 7 0) (SubRipTime 0 0 5 0) '''']"
    by (simp add: timeline_def)
  with sel idx a d m s t show ?thesis by blast
qed

section \<open>Splitting at the text cursor\<close>

lemma nth_update_indices:
  "k < length subs \<Longrightarrow> update_indices subs ! k = (subs ! k)\<lparr>sub_index := int k + 1\<rparr>"
  by (simp add: update_indices_def nth_enumerate_eq)

lemma nth_list_insert:
  "0 \<le> i \<Longrightarrow> nat i \<le> length xs \<Longrightarrow> list_insert xs i v ! nat i = v"
proof -
  assume a: "0 \<le> i" "nat i \<le> length xs"
  then have "min i (int (length xs)) = i" by simp
  with a show ?thesis by (simp add: list_insert_def Let_def nth_append)
qed

lemma length_list_insert: "length (list_insert xs i v) = Suc (length xs)"
  by (simp add: list_insert_def Let_def)

text \<open>
  Whenever the split at the cursor runs to its end, the item placed behind the
  selected one starts and ends at the same time.
\<close>

lemma editor_split_second_part:
  assumes "editor_split_subtitle ed content cursor_pos = Updated ed'"
  shows "sub_end (timeline ed' ! nat (current_subtitle_index ed + 1))
           = sub_start (timeline ed' ! nat (current_subtitle_index ed + 1))"
proof -
  from assms obtain subs where subs: "subtitles ed = Some subs"
    by (auto simp: editor_split_subtitle_def split: option.splits)
  from assms subs have sel: "0 \<le> current_subtitle_index ed"
    by (auto simp: editor_split_subtitle_def split: if_splits)
  from assms subs sel obtain cur where cur: "list_get subs (current_subtitle_index ed) = Inr cur"
    by (auto simp: editor_split_subtitle_def split: if_splits sum.splits)
  then obtain j where j: "norm_index subs (current_subtitle_index ed) = Inr j"
    by (auto simp: list_get_def split: sum.splits)
  then have lt: "j < length subs" by (rule norm_index_less)
  from j sel have jj: "j = nat (current_subtitle_index ed)"
    by (auto simp: norm_index_def Let_def split: if_splits)
  let ?i = "current_subtitle_index ed"
  define split_time where "split_time = from_ordinal (ordinal (sub_start cur)
      + py_int_of_real (real_of_int (ordinal (sub_end cur) - ordinal (sub_start cur))
          * (real_of_int cursor_pos / real (length content))))"
  define new_sub where "new_sub = SubRipItem (sub_index cur + 1) split_time split_time
      (strip (drop (nat cursor_pos) content))"
  define subs1 where "subs1 = subs[j := cur\<lparr>sub_text := strip (take (nat cursor_pos) content),
      sub_end := split_time\<rparr>]"
  from assms subs sel cur j
  have ed': "timeline ed' = update_indices (list_insert subs1 (?i + 1) new_sub)"
    by (auto simp: editor_split_subtitle_def Let_def list_set_def timeline_def SubRipItem_def
          split_time_def new_sub_def subs1_def split: if_splits)
  have pos: "0 \<le> ?i + 1" "nat (?i + 1) \<le> length subs1"
    using sel lt jj by (simp_all add: subs1_def)
  have "timeline ed' ! nat (?i + 1) = new_sub\<lparr>sub_index := int (nat (?i + 1)) + 1\<rparr>"
    using pos by (simp add: ed' nth_update_indices length_list_insert nth_list_insert)
  then show ?thesis by (simp add: new_sub_def SubRipItem_def)
qed

text \<open>
  C3. The split at the cursor is claimed to give the second part the span from
  the split time to the original end. A subtitle from 1000 ms to 5000 ms with
  the text abcd, split with the cursor after two characters: the split time is
  3000 ms, the first part is 1000-3000 ab, and the second part is 3000-3000 cd.
  Its end is read from the selected item after that item's end was set to the
  split time.
\<close>

theorem C3_text_split_second_part:
  "editor_split_subtitle
     \<lparr>subtitles = Some [SubRipItem 1 (from_ordinal 1000) (from_ordinal 5000) ''abcd''],
      current_subtitle_index = 0, modified = False\<rparr> ''abcd'' 2
   = Updated
     \<lparr>subtitles = Some [SubRipItem 1 (from_ordinal 1000) (from_ordinal 3000) ''ab'',
                        SubRipItem 2 (from_ordinal 3000) (from_ordinal 3000) ''cd''],
      current_subtitle_index = 0, modified = True\<rparr>"
  by code_simp

section \<open>Adding a subtitle\<close>

text \<open>
  C8. The subtitle added behind the selected one is claimed to last five
  seconds from its start. One subtitle from 0 to 10 seconds, selected: the new
  subtitle starts at 10 seconds and ends at 00:00:05.000, the fixed time the
  code builds for the end.
\<close>

theorem C8_add_after_last_selected:
  "add_subtitle
     \<lparr>subtitles = Some [SubRipItem 1 (SubRipTime 0 0 0 0) (SubRipTime 0 0 10 0) ''a''],
      current_subtitle_index = 0, modified = False\<rparr>
   = Updated
     \<lparr>subtitles = Some [SubRipItem 1 (SubRipTime 0 0 0 0) (SubRipTime 0 0 10 0) ''a'',
                        SubRipItem 2 (SubRipTime 0 0 10 0) (SubRipTime 0 0 5 0) ''''],
      current_subtitle_index = 0, modified = True\<rparr>"
  by code_simp

text \<open>
  When a subtitle follows the selected one, the test for an overlap reads the
  attribute \<open>seconds\<close> of that item and the operation raises.
\<close>

lemma add_subtitle_before_next_raises:
  "add_subtitle
     \<lparr>subtitles = Some [SubRipItem 1 (SubRipTime 0 0 0 0) (SubRipTime 0 0 10 0) ''a'',
                        SubRipItem 2 (SubRipTime 0 0 20 0) (SubRipTime 0 0 30 0) ''b''],
      current_subtitle_index = 0, modified = False\<rparr>
   = Raised AttributeError"
  by code_simp

section \<open>Timestamps: formatting and parsing\<close>

lemma of_char_digit_char: "d < 10 \<Longrightarrow> (of_char (digit_char d) :: nat) = 48 + d"
  by (simp add: digit_char_def)

lemma is_digit_digit_char: "d < 10 \<Longrightarrow> is_digit (digit_char d)"
  by (simp add: is_digit_def of_char_digit_char)

lemma digit_value_digit_char: "d < 10 \<Longrightarrow> digit_value (digit_char d) = d"
  by (simp add: digit_value_def of_char_digit_char)

lemma digits_number_snoc: "digits_number (s @ [c]) = 10 * digits_number s + digit_value c"
  by (simp add: digits_number_def)

lemma decimal_digits: "list_all is_digit (decimal n)"
proof (induction n rule: decimal.induct)
  case (1 n)
  show ?case
  proof (cases "n < 10")
    case True
    then show ?thesis by (simp add: decimal.simps [of n] is_digit_digit_char)
  next
    case False
    with 1 show ?thesis by (simp add: decimal.simps [of n] is_digit_digit_char)
  qed
qed

lemma decimal_nonempty: "decimal n \<noteq> []"
  by (simp add: decimal.simps [of n])

lemma digits_number_decimal: "digits_number (decimal n) = n"
proof (induction n rule: decimal.induct)
  case (1 n)
  show ?case
  proof (cases "n < 10")
    case True
    then show ?thesis
      by (simp add: decimal.simps [of n] digits_number_def digit_value_digit_char)
  next
    case False
    with 1 show ?thesis
      by (simp add: decimal.simps [of n] digits_number_snoc digit_value_digit_char)
  qed
qed

lemma length_decimal_below_1000: "n < 1000 \<Longrightarrow> length (decimal n) \<le> 3"
  by (simp add: decimal.simps [of n] decimal.simps [of "n div 10"]
        decimal.simps [of "n div 10 div 10"])

lemma digits_number_zeros: "digits_number (replicate k CHR ''0'' @ s) = digits_number s"
proof -
  have "foldl (\<lambda>n c. 10 * n + digit_value c) 0 (replicate k CHR ''0'') = 0"
    by (induction k) (simp_all add: digit_value_def)
  then show ?thesis by (simp add: digits_number_def)
qed

lemma is_digit_zero: "is_digit CHR ''0''"
  by (simp add: is_digit_def)

lemma zfill_digits: "list_all is_digit s \<Longrightarrow> list_all is_digit (zfill w s)"
  by (auto simp: zfill_def is_digit_zero list_all_iff)

lemma digits_number_zfill: "digits_number (zfill w s) = digits_number s"
  by (simp add: zfill_def digits_number_zeros)

lemma zfill_nonempty: "s \<noteq> [] \<Longrightarrow> zfill w s \<noteq> []"
  by (simp add: zfill_def)

lemma digits_ok_all_digits: "s \<noteq> [] \<Longrightarrow> list_all is_digit s \<Longrightarrow> digits_ok s"
proof (induction s rule: digits_ok.induct)
  case 1
  then show ?case by simp
next
  case (2 c)
  then show ?case by simp
next
  case (3 c d cs)
  from "3.prems" have "is_digit d" by simp
  then have "d \<noteq> CHR ''_''" by (auto simp: is_digit_def)
  with 3 show ?case by simp
qed

lemma digit_not_space: "is_digit c \<Longrightarrow> \<not> is_space c"
  by (auto simp: is_digit_def is_space_def Let_def)

lemma dropWhile_none: "list_all (\<lambda>c. \<not> P c) s \<Longrightarrow> dropWhile P s = s"
  by (cases s) simp_all

lemma strip_digits: "list_all is_digit s \<Longrightarrow> strip s = s"
proof -
  assume d: "list_all is_digit s"
  then have a: "list_all (\<lambda>c. \<not> is_space c) s"
    by (auto simp: list_all_iff digit_not_space)
  then have b: "list_all (\<lambda>c. \<not> is_space c) (rev s)"
    by (simp add: list_all_iff)
  show ?thesis by (simp add: strip_def dropWhile_none [OF a] dropWhile_none [OF b])
qed

lemma py_int_digits:
  assumes "s \<noteq> []" "list_all is_digit s"
  shows "py_int s = Inr (int (digits_number s))"
proof -
  from assms have hd: "is_digit (hd s)" by (cases s) simp_all
  then have sign: "hd s \<noteq> CHR ''-''" "hd s \<noteq> CHR ''+''"
    by (auto simp: is_digit_def)
  have "filter (\<lambda>c. c \<noteq> CHR ''_'') s = s"
    using assms(2) by (auto simp: list_all_iff is_digit_def intro!: filter_True)
  with assms sign show ?thesis
    by (simp add: py_int_def strip_digits digits_ok_all_digits)
qed

lemma format_0d_digits:
  "0 \<le> n \<Longrightarrow> list_all is_digit (format_0d w n) \<and> format_0d w n \<noteq> []"
  by (simp add: format_0d_def zfill_digits decimal_digits zfill_nonempty decimal_nonempty)

lemma py_int_format_0d: "0 \<le> n \<Longrightarrow> py_int (format_0d w n) = Inr n"
  using format_0d_digits [of n w]
  by (simp add: py_int_digits) (simp add: format_0d_def digits_number_zfill digits_number_decimal)

lemma length_format_03d: "0 \<le> n \<Longrightarrow> n < 1000 \<Longrightarrow> length (format_0d 3 n) = 3"
  using length_decimal_below_1000 [of "nat n"] by (simp add: format_0d_def zfill_def)

lemma SubRipTime_fields:
  "SubRipTime (hours t) (minutes t) (seconds t) (milliseconds t) = t"
proof -
  define n where "n = ordinal t"
  have a: "n mod 60000 div 1000 * 1000 + n mod 1000 = n mod 60000"
  proof -
    have "n mod 60000 mod 1000 = n mod 1000" by (simp add: mod_mod_cancel)
    then show ?thesis using div_mult_mod_eq [of "n mod 60000" 1000] by simp
  qed
  have b: "n mod 3600000 div 60000 * 60000 + n mod 60000 = n mod 3600000"
  proof -
    have "n mod 3600000 mod 60000 = n mod 60000" by (simp add: mod_mod_cancel)
    then show ?thesis using div_mult_mod_eq [of "n mod 3600000" 60000] by simp
  qed
  have c: "n div 3600000 * 3600000 + n mod 3600000 = n" by simp
  from a b c have "n div 3600000 * 3600000 + n mod 3600000 div 60000 * 60000
          + n mod 60000 div 1000 * 1000 + n mod 1000 = n" by linarith
  then have "ordinal (SubRipTime (hours t) (minutes t) (seconds t) (milliseconds t)) = ordinal t"
    by (simp add: SubRipTime_def hours_def minutes_def seconds_def milliseconds_def n_def)
  then show ?thesis by simp
qed

lemma fields_nonneg:
  "0 \<le> minutes t" "0 \<le> seconds t" "0 \<le> milliseconds t" "milliseconds t < 1000"
  by (simp_all add: minutes_def seconds_def milliseconds_def pos_imp_zdiv_nonneg_iff)

lemma hours_nonneg: "0 \<le> ordinal t \<Longrightarrow> 0 \<le> hours t"
  by (simp add: hours_def pos_imp_zdiv_nonneg_iff)

lemma SubRipTime_in_range:
  assumes "0 \<le> h" "0 \<le> m" "m < 60" "0 \<le> s" "s < 60" "0 \<le> ms" "ms < 1000"
  shows "hours (SubRipTime h m s ms) = h \<and> minutes (SubRipTime h m s ms) = m
    \<and> seconds (SubRipTime h m s ms) = s \<and> milliseconds (SubRipTime h m s ms) = ms
    \<and> 0 \<le> ordinal (SubRipTime h m s ms)"
proof -
  define n where "n = h * 3600000 + m * 60000 + s * 1000 + ms"
  have low: "0 \<le> s * 1000 + ms" "s * 1000 + ms < 60000" using assms by auto
  have mid: "0 \<le> m * 60000 + (s * 1000 + ms)" "m * 60000 + (s * 1000 + ms) < 3600000"
    using assms by auto
  have ms: "n mod 1000 = ms"
  proof -
    have "n = ms + (h * 3600 + m * 60 + s) * 1000" by (simp add: n_def algebra_simps)
    then have "n mod 1000 = ms mod 1000" by (simp only: mod_mult_self1)
    with assms show ?thesis by simp
  qed
  have n60: "n mod 60000 = s * 1000 + ms"
  proof -
    have "n = (s * 1000 + ms) + (h * 60 + m) * 60000" by (simp add: n_def algebra_simps)
    then have "n mod 60000 = (s * 1000 + ms) mod 60000" by (simp only: mod_mult_self1)
    with low show ?thesis by simp
  qed
  have n3600: "n mod 3600000 = m * 60000 + (s * 1000 + ms)"
  proof -
    have "n = (m * 60000 + (s * 1000 + ms)) + h * 3600000" by (simp add: n_def algebra_simps)
    then have "n mod 3600000 = (m * 60000 + (s * 1000 + ms)) mod 3600000"
      by (simp only: mod_mult_self1)
    with mid show ?thesis by simp
  qed
  have sec: "n mod 60000 div 1000 = s"
    unfolding n60 using assms by simp
  have mins: "n mod 3600000 div 60000 = m"
    unfolding n3600 using low by simp
  have hrs: "n div 3600000 = h"
  proof -
    have "n = h * 3600000 + (m * 60000 + (s * 1000 + ms))" by (simp add: n_def)
    then show ?thesis using mid by simp
  qed
  have "0 \<le> n" using assms by (simp add: n_def)
  with ms sec mins hrs show ?thesis
    by (simp add: SubRipTime_def hours_def minutes_def seconds_def milliseconds_def n_def)
qed

lemma split_on_nonempty: "split_on sep s \<noteq> []"
  by (induction s) (simp_all split: list.splits)

lemma split_on_no_sep: "sep \<notin> set a \<Longrightarrow> split_on sep a = [a]"
  by (induction a) auto

lemma split_on_first: "sep \<notin> set a \<Longrightarrow> split_on sep (a @ sep # b) = a # split_on sep b"
  by (induction a) auto

lemma replace_char_absent: "old \<notin> set s \<Longrightarrow> replace_char old new s = s"
  by (induction s) (auto simp: replace_char_def)

lemma digits_no_char: "list_all is_digit s \<Longrightarrow> \<not> is_digit c \<Longrightarrow> c \<notin> set s"
  by (auto simp: list_all_iff)

lemma separators_not_digits:
  "\<not> is_digit CHR '':''" "\<not> is_digit CHR ''.''" "\<not> is_digit CHR '',''"
  by (simp_all add: is_digit_def)

text \<open>What the parser does with four fields free of separators.\<close>

lemma parse_timestamp_fields:
  assumes "CHR '':'' \<notin> set hh \<union> set mm \<union> set ss \<union> set ff"
    and "CHR ''.'' \<notin> set ss \<union> set ff"
    and "CHR '','' \<notin> set hh \<union> set mm \<union> set ss \<union> set ff"
  shows "parse_timestamp (hh @ CHR '':'' # mm @ CHR '':'' # ss @ CHR ''.'' # ff) =
     (case py_int hh of
        Inl e \<Rightarrow> Inl e
      | Inr h \<Rightarrow>
         (case py_int mm of
            Inl e \<Rightarrow> Inl e
          | Inr m \<Rightarrow>
             (case py_int ss of
                Inl e \<Rightarrow> Inl e
              | Inr s \<Rightarrow>
                 (case py_int (take 3 (ljust 3 CHR ''0'' ff)) of
                    Inl e \<Rightarrow> Inl e
                  | Inr ms \<Rightarrow> Inr (SubRipTime h m s ms)))))"
proof -
  let ?rest = "ss @ CHR ''.'' # ff"
  let ?str = "hh @ CHR '':'' # mm @ CHR '':'' # ?rest"
  have "CHR '','' \<notin> set ?str" using assms(3) by simp
  then have r: "replace_char CHR '','' CHR ''.'' ?str = ?str"
    by (rule replace_char_absent)
  have c1: "CHR '':'' \<notin> set hh" and c2: "CHR '':'' \<notin> set mm"
    and c3: "CHR '':'' \<notin> set ?rest"
    using assms(1) by simp_all
  have parts: "split_on CHR '':'' ?str = [hh, mm, ?rest]"
    by (simp only: split_on_first [OF c1] split_on_first [OF c2] split_on_no_sep [OF c3])
  have d1: "CHR ''.'' \<notin> set ss" and d2: "CHR ''.'' \<notin> set ff"
    using assms(2) by simp_all
  have secs: "split_on CHR ''.'' ?rest = [ss, ff]"
    by (simp only: split_on_first [OF d1] split_on_no_sep [OF d2])
  have n: "[hh, mm, ?rest] ! 0 = hh" "[hh, mm, ?rest] ! 1 = mm" "[hh, mm, ?rest] ! 2 = ?rest"
    "length [hh, mm, ?rest] = 3" "hd [ss, ff] = ss" "[ss, ff] ! 1 = ff" "1 < length [ss, ff]"
    by simp_all
  show ?thesis
    unfolding parse_timestamp_def r parts Let_def n secs
    by (simp split: sum.splits)
qed

lemma parse_format_timestamp:
  assumes "0 \<le> ordinal t"
  shows "parse_timestamp (format_timestamp t) = Inr t"
proof -
  let ?hh = "format_0d 2 (hours t)" and ?mm = "format_0d 2 (minutes t)"
    and ?ss = "format_0d 2 (seconds t)" and ?ff = "format_0d 3 (milliseconds t)"
  have h: "0 \<le> hours t" using assms by (rule hours_nonneg)
  note d = format_0d_digits [OF h, of 2] format_0d_digits [OF fields_nonneg(1), of 2 t]
    format_0d_digits [OF fields_nonneg(2), of 2 t] format_0d_digits [OF fields_nonneg(3), of 3 t]
  have colon: "CHR '':'' \<notin> set ?hh \<union> set ?mm \<union> set ?ss \<union> set ?ff"
    using d by (simp add: digits_no_char separators_not_digits)
  have dot: "CHR ''.'' \<notin> set ?ss \<union> set ?ff"
    using d by (simp add: digits_no_char separators_not_digits)
  have comma: "CHR '','' \<notin> set ?hh \<union> set ?mm \<union> set ?ss \<union> set ?ff"
    using d by (simp add: digits_no_char separators_not_digits)
  have len: "length ?ff = 3"
    using fields_nonneg(3,4) [of t] by (rule length_format_03d)
  have frac: "take 3 (ljust 3 CHR ''0'' ?ff) = ?ff"
    by (simp add: ljust_def len)
  have fmt: "format_timestamp t = ?hh @ CHR '':'' # ?mm @ CHR '':'' # ?ss @ CHR ''.'' # ?ff"
    by (simp add: format_timestamp_def)
  have "parse_timestamp (format_timestamp t)
      = Inr (SubRipTime (hours t) (minutes t) (seconds t) (milliseconds t))"
    unfolding fmt parse_timestamp_fields [OF colon dot comma] frac
    by (simp add: py_int_format_0d h fields_nonneg)
  then show ?thesis by (simp only: SubRipTime_fields)
qed

lemma parse_timestamp_comma: "parse_timestamp (x @ CHR '','' # y) = parse_timestamp (x @ CHR ''.'' # y)"
  by (simp add: parse_timestamp_def replace_char_def)

lemma length_fraction: "length (take 3 (ljust 3 CHR ''0'' ff)) = 3"
  by (simp add: ljust_def)

lemma fraction_idem:
  "take 3 (ljust 3 CHR ''0'' (take 3 (ljust 3 CHR ''0'' ff))) = take 3 (ljust 3 CHR ''0'' ff)"
  by (simp add: ljust_def)

lemma fraction_chars: "c \<noteq> CHR ''0'' \<Longrightarrow> c \<notin> set ff \<Longrightarrow> c \<notin> set (take 3 (ljust 3 CHR ''0'' ff))"
  by (auto simp: ljust_def dest!: in_set_takeD)

lemma parse_timestamp_fraction:
  assumes "CHR '':'' \<notin> set hh \<union> set mm \<union> set ss \<union> set ff"
    and "CHR ''.'' \<notin> set ss \<union> set ff"
    and "CHR '','' \<notin> set hh \<union> set mm \<union> set ss \<union> set ff"
  shows "parse_timestamp (hh @ CHR '':'' # mm @ CHR '':'' # ss @ CHR ''.'' # ff)
     = parse_timestamp (hh @ CHR '':'' # mm @ CHR '':'' # ss @ CHR ''.''
                         # take 3 (ljust 3 CHR ''0'' ff))"
proof -
  let ?ff = "take 3 (ljust 3 CHR ''0'' ff)"
  have a: "CHR '':'' \<notin> set hh \<union> set mm \<union> set ss \<union> set ?ff"
    using assms(1) fraction_chars [of "CHR '':''" ff] by simp
  have b: "CHR ''.'' \<notin> set ss \<union> set ?ff"
    using assms(2) fraction_chars [of "CHR ''.''" ff] by simp
  have c: "CHR '','' \<notin> set hh \<union> set mm \<union> set ss \<union> set ?ff"
    using assms(3) fraction_chars [of "CHR '',''" ff] by simp
  show ?thesis
    by (simp only: parse_timestamp_fields [OF assms] parse_timestamp_fields [OF a b c]
          fraction_idem)
qed

lemma parse_timestamp_field_count:
  "length (split_on CHR '':'' (replace_char CHR '','' CHR ''.'' str)) \<noteq> 3 \<Longrightarrow>
   parse_timestamp str = Inl (ValueError ''Invalid timestamp format'')"
  by (simp add: parse_timestamp_def)

text \<open>
  C7. For every timestamp with hours from 0, minutes and seconds below 60 and
  milliseconds below 1000, the formatted string is the four zero-padded
  fields, and parsing it returns the same timestamp, with the same four
  fields. The parser reads a comma as it reads a dot; it reads a fraction as
  its first three characters, after filling it up to three with zeros; and it
  fails on every string that does not have three fields between colons.
\<close>

theorem C7_timestamp_round_trip:
  "(0 \<le> h \<and> 0 \<le> m \<and> m < 60 \<and> 0 \<le> s \<and> s < 60 \<and> 0 \<le> ms \<and> ms < 1000 \<longrightarrow>
      format_timestamp (SubRipTime h m s ms)
        = format_0d 2 h @ '':'' @ format_0d 2 m @ '':'' @ format_0d 2 s @ ''.'' @ format_0d 3 ms
      \<and> parse_timestamp (format_timestamp (SubRipTime h m s ms)) = Inr (SubRipTime h m s ms)
      \<and> hours (SubRipTime h m s ms) = h \<and> minutes (SubRipTime h m s ms) = m
      \<and> seconds (SubRipTime h m s ms) = s \<and> milliseconds (SubRipTime h m s ms) = ms)
   \<and> parse_timestamp (x @ CHR '','' # y) = parse_timestamp (x @ CHR ''.'' # y)
   \<and> (CHR '':'' \<notin> set hh \<union> set mm \<union> set ss \<union> set ff
        \<and> CHR ''.'' \<notin> set ss \<union> set ff
        \<and> CHR '','' \<notin> set hh \<union> set mm \<union> set ss \<union> set ff \<longrightarrow>
      parse_timestamp (hh @ '':'' @ mm @ '':'' @ ss @ ''.'' @ ff)
        = parse_timestamp (hh @ '':'' @ mm @ '':'' @ ss @ ''.'' @ take 3 (ljust 3 CHR ''0'' ff))
      \<and> length (take 3 (ljust 3 CHR ''0'' ff)) = 3)
   \<and> (length (split_on CHR '':'' (replace_char CHR '','' CHR ''.'' str)) \<noteq> 3 \<longrightarrow>
      parse_timestamp str = Inl (ValueError ''Invalid timestamp format''))"
proof -
  have round_trip: "format_timestamp (SubRipTime h m s ms)
        = format_0d 2 h @ '':'' @ format_0d 2 m @ '':'' @ format_0d 2 s @ ''.'' @ format_0d 3 ms
      \<and> parse_timestamp (format_timestamp (SubRipTime h m s ms)) = Inr (SubRipTime h m s ms)
      \<and> hours (SubRipTime h m s ms) = h \<and> minutes (SubRipTime h m s ms) = m
      \<and> seconds (SubRipTime h m s ms) = s \<and> milliseconds (SubRipTime h m s ms) = ms"
    if "0 \<le> h" "0 \<le> m" "m < 60" "0 \<le> s" "s < 60" "0 \<le> ms" "ms < 1000"
  proof -
    note f = SubRipTime_in_range [OF that]
    from f have "parse_timestamp (format_timestamp (SubRipTime h m s ms)) = Inr (SubRipTime h m s ms)"
      by (simp add: parse_format_timestamp)
    moreover have "format_timestamp (SubRipTime h m s ms)
        = format_0d 2 h @ '':'' @ format_0d 2 m @ '':'' @ format_0d 2 s @ ''.'' @ format_0d 3 ms"
      using f by (simp add: format_timestamp_def)
    ultimately show ?thesis using f by simp
  qed
  have fraction: "parse_timestamp (hh @ '':'' @ mm @ '':'' @ ss @ ''.'' @ ff)
        = parse_timestamp (hh @ '':'' @ mm @ '':'' @ ss @ ''.'' @ take 3 (ljust 3 CHR ''0'' ff))"
    if "CHR '':'' \<notin> set hh \<union> set mm \<union> set ss \<union> set ff"
      "CHR ''.'' \<notin> set ss \<union> set ff"
      "CHR '','' \<notin> set hh \<union> set mm \<union> set ss \<union> set ff"
    using parse_timestamp_fraction [OF that] by simp
  from round_trip fraction parse_timestamp_comma [of x y] length_fraction [of ff]
    parse_timestamp_field_count [of str]
  show ?thesis by blast
qed

theorem C7_timestamp_round_trip_witness:
  "(0::int) \<le> 1 \<and> (0::int) \<le> 2 \<and> (2::int) < 60 \<and> (0::int) \<le> 3 \<and> (3::int) < 60
   \<and> (0::int) \<le> 45 \<and> (45::int) < 1000
   \<and> format_timestamp (SubRipTime 1 2 3 45) = ''01:02:03.045''
   \<and> parse_timestamp (format_timestamp (SubRipTime 1 2 3 45)) = Inr (SubRipTime 1 2 3 45)
   \<and> CHR '':'' \<notin> set ''00'' \<union> set ''00'' \<union> set ''01'' \<union> set ''12345''
   \<and> CHR ''.'' \<notin> set ''01'' \<union> set ''12345''
   \<and> CHR '','' \<notin> set ''00'' \<union> set ''00'' \<union> set ''01'' \<union> set ''12345''
   \<and> parse_timestamp ''00:00:01.12345'' = Inr (SubRipTime 0 0 1 123)
   \<and> parse_timestamp ''00:00:01,5'' = Inr (SubRipTime 0 0 1 500)
   \<and> length (split_on CHR '':'' (replace_char CHR '','' CHR ''.'' ''01:02'')) \<noteq> 3
   \<and> parse_timestamp ''01:02'' = Inl (ValueError ''Invalid timestamp format'')"
proof -
  have f: "format_0d 2 1 @ '':'' @ format_0d 2 2 @ '':'' @ format_0d 2 3 @ ''.'' @ format_0d 3 45
             = ''01:02:03.045''"
    by code_simp
  have t: "parse_timestamp ''00:00:01.123'' = Inr (SubRipTime 0 0 1 123)" by code_simp
  have c: "parse_timestamp ''00:00:01.5'' = Inr (SubRipTime 0 0 1 500)" by code_simp
  have n: "length (split_on CHR '':'' (replace_char CHR '','' CHR ''.'' ''01:02'')) \<noteq> 3"
    by code_simp
  have p: "take 3 (ljust 3 CHR ''0'' ''12345'') = ''123''" by code_simp
  have nums: "(0::int) \<le> 1" "(0::int) \<le> 2" "(2::int) < 60" "(0::int) \<le> 3" "(3::int) < 60"
    "(0::int) \<le> 45" "(45::int) < 1000"
    by simp_all
  have sets: "CHR '':'' \<notin> set ''00'' \<union> set ''00'' \<union> set ''01'' \<union> set ''12345''"
    "CHR ''.'' \<notin> set ''01'' \<union> set ''12345''"
    "CHR '','' \<notin> set ''00'' \<union> set ''00'' \<union> set ''01'' \<union> set ''12345''"
    by simp_all
  note w = C7_timestamp_round_trip [of 1 2 3 45 "''00:00:01''" "''5''" "''00''" "''00''" "''01''"
      "''12345''" "''01:02''"]
  from w nums
  have r: "parse_timestamp (format_timestamp (SubRipTime 1 2 3 45)) = Inr (SubRipTime 1 2 3 45)"
    by blast
  from w nums f have fm: "format_timestamp (SubRipTime 1 2 3 45) = ''01:02:03.045''"
    by simp
  from w c have cm: "parse_timestamp ''00:00:01,5'' = Inr (SubRipTime 0 0 1 500)"
    by simp
  from w sets p t have fr: "parse_timestamp ''00:00:01.12345'' = Inr (SubRipTime 0 0 1 123)"
    by simp
  from w n have fl: "parse_timestamp ''01:02'' = Inl (ValueError ''Invalid timestamp format'')"
    by blast
  from nums sets r fm cm fr fl n show ?thesis by blast
qed

end
